theory Spec2Isabelle
  imports Main "HOL-Library.Word"
begin

section \<open>The MongoDB distributed cache: data model\<close>

text \<open>
  The adapter \<^verbatim>\<open>MongoDBDistributedCache\<close> implements the byte-blob cache contract
  \<^verbatim>\<open>Get\<close>, \<^verbatim>\<open>Refresh\<close>, \<^verbatim>\<open>Remove\<close>, \<^verbatim>\<open>Set\<close> on one collection of
  \<^verbatim>\<open>CacheEntry\<close> documents. Every method reads the clock (\<^verbatim>\<open>DateTime.UtcNow\<close>) at most
  once; the reading is the parameter \<open>now\<close> of the embedded method. A \<^verbatim>\<open>DateTime\<close> is a
  count of ticks and a \<^verbatim>\<open>TimeSpan\<close> a difference of ticks; the adapter compares and
  adds none of them, it only stores them.
\<close>

type_synonym DateTime = int
type_synonym TimeSpan = int
type_synonym byte = "8 word"

text \<open>
  \<^verbatim>\<open>DateTimeOffset\<close>: a clock reading together with its offset from UTC.
  \<^verbatim>\<open>UtcDateTime\<close> is the same instant on the UTC clock.
\<close>

record DateTimeOffset =
  ClockDateTime :: DateTime
  Offset :: TimeSpan

definition UtcDateTime :: "DateTimeOffset \<Rightarrow> DateTime" where
  "UtcDateTime d = ClockDateTime d - Offset d"

text \<open>
  \<^verbatim>\<open>DistributedCacheEntryOptions\<close>, the options argument of \<^verbatim>\<open>Set\<close>. The options
  written \<open>{}\<close> are the ones with every field unset.
\<close>

record DistributedCacheEntryOptions =
  AbsoluteExpiration_opt :: "DateTimeOffset option"
  AbsoluteExpirationRelativeToNow_opt :: "TimeSpan option"
  SlidingExpiration_opt :: "TimeSpan option"

definition no_options :: DistributedCacheEntryOptions where
  "no_options = \<lparr>AbsoluteExpiration_opt = None,
     AbsoluteExpirationRelativeToNow_opt = None, SlidingExpiration_opt = None\<rparr>"

text \<open>
  Modelled from the spec: the declaration of the class \<^verbatim>\<open>CacheEntry\<close> is not part of
  the source; its five fields are the ones the adapter reads and writes, with the types
  of section 3 of the specification (the key, an opaque byte sequence, an optional UTC
  timestamp, an optional duration, a UTC timestamp). The field \<^verbatim>\<open>Id\<close> is written
  \<open>Id'\<close> here.
\<close>

record CacheEntry =
  Id' :: string
  Value :: "byte list"
  AbsoluteExpiration :: "DateTime option"
  SlidingExpiration :: "TimeSpan option"
  LastAccessTime :: DateTime

section \<open>The document collection\<close>

text \<open>
  The collection \<^verbatim>\<open>IMongoCollection<CacheEntry>\<close> is the sequence of its documents.
  The adapter uses four operations of it: \<^verbatim>\<open>Find(filter).FirstOrDefault()\<close>, the first
  document that satisfies the filter or \<^verbatim>\<open>null\<close>; \<^verbatim>\<open>ReplaceOne(filter, entry)\<close>, which
  replaces the first document that satisfies the filter and does nothing when there is
  none; the same with \<^verbatim>\<open>IsUpsert = true\<close>, which then inserts the entry; and
  \<^verbatim>\<open>DeleteOne(filter)\<close>, which deletes the first document that satisfies the filter.
\<close>

type_synonym collection = "CacheEntry list"

fun FirstOrDefault :: "(CacheEntry \<Rightarrow> bool) \<Rightarrow> collection \<Rightarrow> CacheEntry option" where
  "FirstOrDefault P [] = None"
| "FirstOrDefault P (d # ds) = (if P d then Some d else FirstOrDefault P ds)"

fun ReplaceOne :: "(CacheEntry \<Rightarrow> bool) \<Rightarrow> CacheEntry \<Rightarrow> bool \<Rightarrow> collection \<Rightarrow> collection" where
  "ReplaceOne P entry IsUpsert [] = (if IsUpsert then [entry] else [])"
| "ReplaceOne P entry IsUpsert (d # ds) =
     (if P d then entry # ds else d # ReplaceOne P entry IsUpsert ds)"

fun DeleteOne :: "(CacheEntry \<Rightarrow> bool) \<Rightarrow> collection \<Rightarrow> collection" where
  "DeleteOne P [] = []"
| "DeleteOne P (d # ds) = (if P d then ds else d # DeleteOne P ds)"

text \<open>
  The store keeps \<^verbatim>\<open>Id\<close> unique (it is the primary key of the collection): no two
  documents of a collection have the same \<^verbatim>\<open>Id\<close>.
\<close>

definition unique_ids :: "collection \<Rightarrow> bool" where
  "unique_ids c = distinct (map Id' c)"

section \<open>The adapter\<close>

text \<open>
  \<^verbatim>\<open>Get\<close> returns the value (\<open>None\<close> is the \<^verbatim>\<open>null\<close> of a missing key) and the
  collection it leaves behind. The parameter \<^verbatim>\<open>byte[] value\<close> of \<^verbatim>\<open>Set\<close> is a
  byte sequence, never \<^verbatim>\<open>null\<close>. The methods \<^verbatim>\<open>GetAsync\<close>, \<^verbatim>\<open>RefreshAsync\<close>,
  \<^verbatim>\<open>RemoveAsync\<close> and \<^verbatim>\<open>SetAsync\<close> have the bodies of the blocking methods with
  the asynchronous calls of the collection; the calls are embedded once, run one after
  another, and the collection keeps each document as it was written.
\<close>

definition Get :: "DateTime \<Rightarrow> string \<Rightarrow> collection \<Rightarrow> byte list option \<times> collection" where
  "Get now key c =
     (case FirstOrDefault (\<lambda>x. Id' x = key) c of
        None \<Rightarrow> (None, c)
      | Some entry \<Rightarrow>
          if SlidingExpiration entry \<noteq> None
          then (let entry' = entry\<lparr>LastAccessTime := now\<rparr>
                in (Some (Value entry'), ReplaceOne (\<lambda>x. Id' x = key) entry' False c))
          else (Some (Value entry), c))"

definition Refresh :: "DateTime \<Rightarrow> string \<Rightarrow> collection \<Rightarrow> collection" where
  "Refresh now key c =
     (case FirstOrDefault (\<lambda>x. Id' x = key) c of
        None \<Rightarrow> c
      | Some entry \<Rightarrow>
          if SlidingExpiration entry \<noteq> None
          then ReplaceOne (\<lambda>x. Id' x = key) (entry\<lparr>LastAccessTime := now\<rparr>) False c
          else c)"

definition Remove :: "string \<Rightarrow> collection \<Rightarrow> collection" where
  "Remove key c = DeleteOne (\<lambda>x. Id' x = key) c"

definition new_entry ::
  "DateTime \<Rightarrow> string \<Rightarrow> byte list \<Rightarrow> DistributedCacheEntryOptions \<Rightarrow> CacheEntry" where
  "new_entry now key val options =
     \<lparr>Id' = key,
      Value = val,
      AbsoluteExpiration = map_option UtcDateTime (AbsoluteExpiration_opt options),
      SlidingExpiration = SlidingExpiration_opt options,
      LastAccessTime = now\<rparr>"

definition Set ::
  "DateTime \<Rightarrow> string \<Rightarrow> byte list \<Rightarrow> DistributedCacheEntryOptions \<Rightarrow> collection \<Rightarrow> collection" where
  "Set now key val options c =
     ReplaceOne (\<lambda>x. Id' x = key) (new_entry now key val options) True c"

text \<open>Repeated calls of \<^verbatim>\<open>Get\<close> on one key, one clock reading for each call.\<close>

fun Gets :: "DateTime list \<Rightarrow> string \<Rightarrow> collection \<Rightarrow> byte list option list \<times> collection" where
  "Gets [] key c = ([], c)"
| "Gets (t # ts) key c =
     (case Get t key c of (r, c') \<Rightarrow>
        (case Gets ts key c' of (rs, c'') \<Rightarrow> (r # rs, c'')))"

text \<open>The calls of the cache contract, and the collection each leaves behind.\<close>

datatype operation =
    OpGet string
  | OpRefresh string
  | OpRemove string
  | OpSet string "byte list" DistributedCacheEntryOptions

fun step :: "DateTime \<Rightarrow> operation \<Rightarrow> collection \<Rightarrow> collection" where
  "step now (OpGet key) c = snd (Get now key c)"
| "step now (OpRefresh key) c = Refresh now key c"
| "step now (OpRemove key) c = Remove key c"
| "step now (OpSet key val options) c = Set now key val options c"

text \<open>
  A history of calls, each with the clock reading of its call, applied from the left.
\<close>

fun run :: "(DateTime \<times> operation) list \<Rightarrow> collection \<Rightarrow> collection" where
  "run [] c = c"
| "run (x # xs) c = run xs (step (fst x) (snd x) c)"

fun sets_key :: "string \<Rightarrow> operation \<Rightarrow> bool" where
  "sets_key k (OpSet key val options) = (key = k)"
| "sets_key k (OpGet key) = False"
| "sets_key k (OpRefresh key) = False"
| "sets_key k (OpRemove key) = False"

section \<open>The collection operations\<close>

lemma FirstOrDefault_ReplaceOne_same:
  "Id' entry = key \<Longrightarrow> FirstOrDefault (\<lambda>x. Id' x = key) c \<noteq> None \<or> up \<Longrightarrow>
   FirstOrDefault (\<lambda>x. Id' x = key) (ReplaceOne (\<lambda>x. Id' x = key) entry up c) = Some entry"
  by (induction c) auto

lemma ReplaceOne_absent:
  "FirstOrDefault P c = None \<Longrightarrow> ReplaceOne P entry False c = c"
  by (induction c) (auto split: if_splits)

lemma FirstOrDefault_Id:
  "FirstOrDefault (\<lambda>x. Id' x = key) c = Some e \<Longrightarrow> Id' e = key"
  by (induction c) (auto split: if_splits)

lemma FirstOrDefault_mem:
  "FirstOrDefault P c = Some e \<Longrightarrow> e \<in> set c"
  by (induction c) (auto split: if_splits)

lemma FirstOrDefault_None_iff:
  "FirstOrDefault (\<lambda>x. Id' x = key) c = None \<longleftrightarrow> key \<notin> Id' ` set c"
  by (induction c) auto

lemma FirstOrDefault_ReplaceOne_other:
  "Id' entry = key \<Longrightarrow> k' \<noteq> key \<Longrightarrow>
   FirstOrDefault (\<lambda>x. Id' x = k') (ReplaceOne (\<lambda>x. Id' x = key) entry up c)
     = FirstOrDefault (\<lambda>x. Id' x = k') c"
  by (induction c) auto

lemma FirstOrDefault_DeleteOne_other:
  "k' \<noteq> key \<Longrightarrow>
   FirstOrDefault (\<lambda>x. Id' x = k') (DeleteOne (\<lambda>x. Id' x = key) c)
     = FirstOrDefault (\<lambda>x. Id' x = k') c"
  by (induction c) auto

lemma filter_ReplaceOne:
  "Id' entry = key \<Longrightarrow>
   filter (\<lambda>x. Id' x \<noteq> key) (ReplaceOne (\<lambda>x. Id' x = key) entry up c)
     = filter (\<lambda>x. Id' x \<noteq> key) c"
  by (induction c) auto

lemma filter_DeleteOne:
  "filter (\<lambda>x. Id' x \<noteq> key) (DeleteOne (\<lambda>x. Id' x = key) c)
     = filter (\<lambda>x. Id' x \<noteq> key) c"
  by (induction c) auto

lemma DeleteOne_absent:
  "FirstOrDefault P c = None \<Longrightarrow> DeleteOne P c = c"
  by (induction c) (auto split: if_splits)

lemma set_DeleteOne: "set (DeleteOne P c) \<subseteq> set c"
  by (induction c) auto

lemma FirstOrDefault_DeleteOne_same:
  "unique_ids c \<Longrightarrow> FirstOrDefault (\<lambda>x. Id' x = key) (DeleteOne (\<lambda>x. Id' x = key) c) = None"
  unfolding unique_ids_def
  by (induction c) (auto simp: FirstOrDefault_None_iff)

lemma unique_ids_DeleteOne:
  "unique_ids c \<Longrightarrow> unique_ids (DeleteOne P c)"
  unfolding unique_ids_def
proof (induction c)
  case Nil
  then show ?case by simp
next
  case (Cons d ds)
  have "Id' ` set (DeleteOne P ds) \<subseteq> Id' ` set ds"
    using set_DeleteOne [of P ds] by blast
  with Cons show ?case by auto
qed

lemma map_Id_ReplaceOne:
  "Id' entry = key \<Longrightarrow>
   map Id' (ReplaceOne (\<lambda>x. Id' x = key) entry up c)
     = (if key \<in> Id' ` set c \<or> \<not> up then map Id' c else map Id' c @ [key])"
  by (induction c) auto

lemma unique_ids_ReplaceOne:
  "Id' entry = key \<Longrightarrow> unique_ids c \<Longrightarrow> unique_ids (ReplaceOne (\<lambda>x. Id' x = key) entry up c)"
  unfolding unique_ids_def by (auto simp: map_Id_ReplaceOne)

section \<open>The adapter, method by method\<close>

lemma Get_absent:
  "FirstOrDefault (\<lambda>x. Id' x = key) c = None \<Longrightarrow> Get now key c = (None, c)"
  by (simp add: Get_def)

lemma Get_untouched:
  "FirstOrDefault (\<lambda>x. Id' x = key) c = Some e \<Longrightarrow> SlidingExpiration e = None \<Longrightarrow>
   Get now key c = (Some (Value e), c)"
  by (simp add: Get_def)

lemma Get_touched:
  "FirstOrDefault (\<lambda>x. Id' x = key) c = Some e \<Longrightarrow> SlidingExpiration e \<noteq> None \<Longrightarrow>
   Get now key c =
     (Some (Value e), ReplaceOne (\<lambda>x. Id' x = key) (e\<lparr>LastAccessTime := now\<rparr>) False c)"
  by (auto simp: Get_def Let_def)

lemma Get_touched_entry:
  assumes "FirstOrDefault (\<lambda>x. Id' x = key) c = Some e" and "SlidingExpiration e \<noteq> None"
  shows "FirstOrDefault (\<lambda>x. Id' x = key) (snd (Get now key c))
           = Some (e\<lparr>LastAccessTime := now\<rparr>)"
proof -
  have "Id' (e\<lparr>LastAccessTime := now\<rparr>) = key"
    using FirstOrDefault_Id [OF assms(1)] by simp
  then show ?thesis
    using assms by (simp add: Get_touched FirstOrDefault_ReplaceOne_same)
qed

lemma Refresh_touched_entry:
  assumes "FirstOrDefault (\<lambda>x. Id' x = key) c = Some e" and "SlidingExpiration e \<noteq> None"
  shows "FirstOrDefault (\<lambda>x. Id' x = key) (Refresh now key c)
           = Some (e\<lparr>LastAccessTime := now\<rparr>)"
proof -
  have "Id' (e\<lparr>LastAccessTime := now\<rparr>) = key"
    using FirstOrDefault_Id [OF assms(1)] by simp
  then show ?thesis
    using assms by (auto simp: Refresh_def FirstOrDefault_ReplaceOne_same)
qed

lemma Refresh_Get: "Refresh now key c = snd (Get now key c)"
  by (auto simp: Refresh_def Get_def Let_def split: option.splits)

lemma Set_entry:
  "FirstOrDefault (\<lambda>x. Id' x = key) (Set now key val options c)
     = Some (new_entry now key val options)"
  by (simp add: Set_def new_entry_def FirstOrDefault_ReplaceOne_same)

lemma Get_other:
  "k' \<noteq> key \<Longrightarrow>
   FirstOrDefault (\<lambda>x. Id' x = k') (snd (Get now key c)) = FirstOrDefault (\<lambda>x. Id' x = k') c"
  by (auto simp: Get_def Let_def FirstOrDefault_ReplaceOne_other
      dest: FirstOrDefault_Id split: option.splits)

lemma Remove_other:
  "k' \<noteq> key \<Longrightarrow>
   FirstOrDefault (\<lambda>x. Id' x = k') (Remove key c) = FirstOrDefault (\<lambda>x. Id' x = k') c"
  by (simp add: Remove_def FirstOrDefault_DeleteOne_other)

lemma Set_other:
  "k' \<noteq> key \<Longrightarrow>
   FirstOrDefault (\<lambda>x. Id' x = k') (Set now key val options c)
     = FirstOrDefault (\<lambda>x. Id' x = k') c"
  by (simp add: Set_def new_entry_def FirstOrDefault_ReplaceOne_other)

lemma Get_filter:
  "filter (\<lambda>x. Id' x \<noteq> key) (snd (Get now key c)) = filter (\<lambda>x. Id' x \<noteq> key) c"
  by (auto simp: Get_def Let_def filter_ReplaceOne dest: FirstOrDefault_Id split: option.splits)

lemma unique_ids_Get: "unique_ids c \<Longrightarrow> unique_ids (snd (Get now key c))"
  by (auto simp: Get_def Let_def unique_ids_ReplaceOne dest: FirstOrDefault_Id
      split: option.splits)

lemma unique_ids_step: "unique_ids c \<Longrightarrow> unique_ids (step now op c)"
  by (cases op)
     (simp_all add: unique_ids_Get Refresh_Get Remove_def unique_ids_DeleteOne
        Set_def new_entry_def unique_ids_ReplaceOne)

lemma unique_ids_run: "unique_ids c \<Longrightarrow> unique_ids (run ops c)"
  by (induction ops arbitrary: c) (simp_all add: unique_ids_step)

lemma unique_ids_empty: "unique_ids []"
  by (simp add: unique_ids_def)

section \<open>Set followed by Get\<close>

text \<open>
  Claim C1. For every key \<open>k\<close> and byte value \<open>v\<close>, whatever the collection holds and
  whatever the two clock readings are, \<^verbatim>\<open>Set(k, v, {})\<close> followed at once by
  \<^verbatim>\<open>Get(k)\<close> returns \<open>v\<close>, and not the signal of a missing key.
\<close>

theorem set_then_get:
  "fst (Get t' k (Set t k v no_options c)) = Some v"
  by (simp add: Get_def Set_def new_entry_def no_options_def FirstOrDefault_ReplaceOne_same)

section \<open>Get performs no expiration check\<close>

text \<open>
  Claim C2. When a document with the key \<open>k\<close> exists, \<^verbatim>\<open>Get(k)\<close> returns its stored
  value at every clock reading \<open>now\<close>: no comparison with \<^verbatim>\<open>AbsoluteExpiration\<close> or with
  \<^verbatim>\<open>LastAccessTime + SlidingExpiration\<close> is made, so the value is also returned when
  \<open>now\<close> is past either deadline, and never the signal of a missing key.
\<close>

theorem get_no_expiration_check:
  "FirstOrDefault (\<lambda>x. Id' x = k) c = Some e \<Longrightarrow> fst (Get now k c) = Some (Value e)"
  by (simp add: Get_def Let_def)

theorem get_no_expiration_check_witness:
  "FirstOrDefault (\<lambda>x. Id' x = ''a'')
     [\<lparr>Id' = ''a'', Value = [1, 2], AbsoluteExpiration = Some 5,
       SlidingExpiration = Some 3, LastAccessTime = 1\<rparr>]
     = Some \<lparr>Id' = ''a'', Value = [1, 2], AbsoluteExpiration = Some 5,
         SlidingExpiration = Some 3, LastAccessTime = 1\<rparr>
   \<and> (5::int) < 100 \<and> (1::int) + 3 < 100
   \<and> fst (Get 100 ''a''
        [\<lparr>Id' = ''a'', Value = [1, 2], AbsoluteExpiration = Some 5,
          SlidingExpiration = Some 3, LastAccessTime = 1\<rparr>]) = Some [1, 2]"
  using get_no_expiration_check [of "''a''"
      "[\<lparr>Id' = ''a'', Value = [1, 2], AbsoluteExpiration = Some 5,
         SlidingExpiration = Some 3, LastAccessTime = 1\<rparr>]"
      "\<lparr>Id' = ''a'', Value = [1, 2], AbsoluteExpiration = Some 5,
         SlidingExpiration = Some 3, LastAccessTime = 1\<rparr>" 100]
  by simp

section \<open>Touch on read\<close>

lemma Gets_sliding:
  "FirstOrDefault (\<lambda>x. Id' x = k) c = Some e \<Longrightarrow> SlidingExpiration e \<noteq> None \<Longrightarrow>
   fst (Gets ts k c) = replicate (length ts) (Some (Value e)) \<and>
   FirstOrDefault (\<lambda>x. Id' x = k) (snd (Gets ts k c))
     = Some (e\<lparr>LastAccessTime := last (LastAccessTime e # ts)\<rparr>)"
proof (induction ts arbitrary: c e)
  case Nil
  then show ?case by simp
next
  case (Cons t ts)
  let ?c1 = "ReplaceOne (\<lambda>x. Id' x = k) (e\<lparr>LastAccessTime := t\<rparr>) False c"
  have g: "Get t k c = (Some (Value e), ?c1)"
    using Cons.prems by (rule Get_touched)
  have f1: "FirstOrDefault (\<lambda>x. Id' x = k) ?c1 = Some (e\<lparr>LastAccessTime := t\<rparr>)"
    using Get_touched_entry [OF Cons.prems, of t] g by simp
  have s1: "SlidingExpiration (e\<lparr>LastAccessTime := t\<rparr>) \<noteq> None"
    using Cons.prems(2) by simp
  from Cons.IH [OF f1 s1] g show ?case
    by (simp add: split_beta)
qed

lemma Gets_untouched:
  "FirstOrDefault (\<lambda>x. Id' x = k) c = Some e \<Longrightarrow> SlidingExpiration e = None \<Longrightarrow>
   Gets ts k c = (replicate (length ts) (Some (Value e)), c)"
  by (induction ts) (simp_all add: Get_untouched)

text \<open>
  Claim C3. After \<^verbatim>\<open>Set(k, v, options)\<close> with a sliding expiration \<open>D\<close>, and after any
  number of calls of \<^verbatim>\<open>Get(k)\<close> (each of which returned \<open>v\<close>), a further call of
  \<^verbatim>\<open>Get(k)\<close> at the clock reading \<open>now\<close> returns \<open>v\<close> and leaves, as the stored
  document of \<open>k\<close>, the entry that \<^verbatim>\<open>Set\<close> wrote with \<^verbatim>\<open>LastAccessTime\<close> equal to
  \<open>now\<close>; its value is still \<open>v\<close>.
\<close>

theorem sliding_touch:
  assumes "SlidingExpiration_opt options = Some D"
  shows "fst (Gets ts k (Set t k v options c)) = replicate (length ts) (Some v)
       \<and> fst (Get now k (snd (Gets ts k (Set t k v options c)))) = Some v
       \<and> FirstOrDefault (\<lambda>x. Id' x = k) (snd (Get now k (snd (Gets ts k (Set t k v options c)))))
           = Some \<lparr>Id' = k, Value = v,
               AbsoluteExpiration = map_option UtcDateTime (AbsoluteExpiration_opt options),
               SlidingExpiration = Some D, LastAccessTime = now\<rparr>"
proof -
  let ?e = "new_entry t k v options"
  let ?c0 = "Set t k v options c"
  let ?c1 = "snd (Gets ts k ?c0)"
  let ?e1 = "?e\<lparr>LastAccessTime := last (LastAccessTime ?e # ts)\<rparr>"
  have f0: "FirstOrDefault (\<lambda>x. Id' x = k) ?c0 = Some ?e"
    by (rule Set_entry)
  have s0: "SlidingExpiration ?e \<noteq> None"
    using assms by (simp add: new_entry_def)
  have v0: "Value ?e = v"
    by (simp add: new_entry_def)
  have gs: "fst (Gets ts k ?c0) = replicate (length ts) (Some v)"
    and f1: "FirstOrDefault (\<lambda>x. Id' x = k) ?c1 = Some ?e1"
    using Gets_sliding [OF f0 s0, of ts] v0 by simp_all
  have s1: "SlidingExpiration ?e1 \<noteq> None"
    using s0 by simp
  have r: "fst (Get now k ?c1) = Some v"
    using Get_touched [OF f1 s1, of now] v0 by simp
  have "FirstOrDefault (\<lambda>x. Id' x = k) (snd (Get now k ?c1))
          = Some (?e1\<lparr>LastAccessTime := now\<rparr>)"
    by (rule Get_touched_entry [OF f1 s1])
  moreover have "?e1\<lparr>LastAccessTime := now\<rparr>
      = \<lparr>Id' = k, Value = v,
          AbsoluteExpiration = map_option UtcDateTime (AbsoluteExpiration_opt options),
          SlidingExpiration = Some D, LastAccessTime = now\<rparr>"
    using assms by (simp add: new_entry_def)
  ultimately show ?thesis using gs r by simp
qed

theorem sliding_touch_witness:
  "SlidingExpiration_opt
      \<lparr>AbsoluteExpiration_opt = None, AbsoluteExpirationRelativeToNow_opt = None,
        SlidingExpiration_opt = Some 20\<rparr> = Some 20
   \<and> fst (Get 9 ''a'' (snd (Gets [3, 5] ''a'' (Set 1 ''a'' [7]
        \<lparr>AbsoluteExpiration_opt = None, AbsoluteExpirationRelativeToNow_opt = None,
          SlidingExpiration_opt = Some 20\<rparr> [])))) = Some [7]
   \<and> FirstOrDefault (\<lambda>x. Id' x = ''a'')
        (snd (Get 9 ''a'' (snd (Gets [3, 5] ''a'' (Set 1 ''a'' [7]
           \<lparr>AbsoluteExpiration_opt = None, AbsoluteExpirationRelativeToNow_opt = None,
             SlidingExpiration_opt = Some 20\<rparr> [])))))
      = Some \<lparr>Id' = ''a'', Value = [7], AbsoluteExpiration = None,
          SlidingExpiration = Some 20, LastAccessTime = 9\<rparr>"
  using sliding_touch [of
      "\<lparr>AbsoluteExpiration_opt = None, AbsoluteExpirationRelativeToNow_opt = None,
         SlidingExpiration_opt = Some 20\<rparr>" 20 "[3, 5]" "''a''" 1 "[7]" "[]" 9]
  by simp

section \<open>Upsert\<close>

lemma ReplaceOne_upsert_twice:
  "ReplaceOne (\<lambda>x. Id' x = key) e2 True (ReplaceOne (\<lambda>x. Id' x = key) e1 True c)
     = ReplaceOne (\<lambda>x. Id' x = key) e2 True c" if "Id' e1 = key"
  using that by (induction c) auto

text \<open>
  Claim C4. \<^verbatim>\<open>Set(k, v1, o1)\<close>, then \<^verbatim>\<open>Set(k, v2, o2)\<close>, then \<^verbatim>\<open>Get(k)\<close> returns
  \<open>v2\<close>, and so not \<open>v1\<close> when the two values differ. The second \<^verbatim>\<open>Set\<close> is a full
  overwrite: the stored document of \<open>k\<close> is the fresh entry built from the arguments of
  the second call alone, with its own expiration fields and its own
  \<^verbatim>\<open>LastAccessTime\<close>, and the collection is the one the second call would have left
  without the first. This holds for all options, in particular for \<open>{}\<close> in both calls.
\<close>

theorem upsert_overwrite:
  "fst (Get t3 k (Set t2 k v2 o2 (Set t1 k v1 o1 c))) = Some v2
   \<and> (v1 \<noteq> v2 \<longrightarrow> fst (Get t3 k (Set t2 k v2 o2 (Set t1 k v1 o1 c))) \<noteq> Some v1)
   \<and> FirstOrDefault (\<lambda>x. Id' x = k) (Set t2 k v2 o2 (Set t1 k v1 o1 c))
       = Some \<lparr>Id' = k, Value = v2,
           AbsoluteExpiration = map_option UtcDateTime (AbsoluteExpiration_opt o2),
           SlidingExpiration = SlidingExpiration_opt o2, LastAccessTime = t2\<rparr>
   \<and> Set t2 k v2 o2 (Set t1 k v1 o1 c) = Set t2 k v2 o2 c"
proof -
  let ?c2 = "Set t2 k v2 o2 (Set t1 k v1 o1 c)"
  have f: "FirstOrDefault (\<lambda>x. Id' x = k) ?c2 = Some (new_entry t2 k v2 o2)"
    by (rule Set_entry)
  have r: "fst (Get t3 k ?c2) = Some v2"
    using f by (simp add: Get_def Let_def new_entry_def)
  have "Id' (new_entry t1 k v1 o1) = k"
    by (simp add: new_entry_def)
  then have "?c2 = Set t2 k v2 o2 c"
    by (simp add: Set_def ReplaceOne_upsert_twice)
  with f r show ?thesis
    by (auto simp: new_entry_def)
qed

theorem upsert_overwrite_witness:
  "([1] :: byte list) \<noteq> [2]
   \<and> fst (Get 9 ''a'' (Set 5 ''a'' [2] no_options (Set 3 ''a'' [1] no_options []))) = Some [2]
   \<and> fst (Get 9 ''a'' (Set 5 ''a'' [2] no_options (Set 3 ''a'' [1] no_options []))) \<noteq> Some [1]"
  using upsert_overwrite [of 9 "''a''" 5 "[2]" no_options 3 "[1]" no_options "[]"]
  by (simp add: Get_def Set_def new_entry_def no_options_def)

section \<open>Missing keys\<close>

lemma step_keeps_absent:
  "FirstOrDefault (\<lambda>x. Id' x = k) c = None \<Longrightarrow> \<not> sets_key k op \<Longrightarrow>
   FirstOrDefault (\<lambda>x. Id' x = k) (step now op c) = None"
proof (cases op)
  case (OpGet key)
  assume "FirstOrDefault (\<lambda>x. Id' x = k) c = None"
  then show ?thesis
    using OpGet Get_other [of k key now c] Get_absent [of k c now] by (cases "k = key") auto
next
  case (OpRefresh key)
  assume "FirstOrDefault (\<lambda>x. Id' x = k) c = None"
  then show ?thesis
    using OpRefresh Get_other [of k key now c] Get_absent [of k c now]
    by (cases "k = key") (auto simp: Refresh_Get)
next
  case (OpRemove key)
  assume "FirstOrDefault (\<lambda>x. Id' x = k) c = None"
  then show ?thesis
    using OpRemove Remove_other [of k key c]
    by (cases "k = key") (auto simp: Remove_def DeleteOne_absent)
next
  case (OpSet key val options)
  assume "FirstOrDefault (\<lambda>x. Id' x = k) c = None" and "\<not> sets_key k op"
  then show ?thesis
    using OpSet Set_other [of k key now val options c] by auto
qed

lemma run_keeps_absent:
  "FirstOrDefault (\<lambda>x. Id' x = k) c = None \<Longrightarrow> \<forall>x \<in> set ops. \<not> sets_key k (snd x) \<Longrightarrow>
   FirstOrDefault (\<lambda>x. Id' x = k) (run ops c) = None"
  by (induction ops arbitrary: c) (simp_all add: step_keeps_absent)

text \<open>
  Claim C5. \<^verbatim>\<open>Get(k)\<close> returns the signal of a missing key, and leaves the collection
  as it is, whenever no document with the key \<open>k\<close> exists. That is the case for a key
  never set (a history of calls from the empty collection none of which is a
  \<^verbatim>\<open>Set\<close> on \<open>k\<close>) and for a key just removed (in a collection with unique keys).
  The signal is a result of its own, not an error, and differs from a stored empty
  value: \<^verbatim>\<open>Set(k, empty, {})\<close> followed by \<^verbatim>\<open>Get(k)\<close> returns the empty value.
\<close>

theorem get_missing:
  "(FirstOrDefault (\<lambda>x. Id' x = k) c = None \<longrightarrow> Get now k c = (None, c))
   \<and> ((\<forall>x \<in> set ops. \<not> sets_key k (snd x)) \<longrightarrow> fst (Get now k (run ops [])) = None)
   \<and> (unique_ids c \<longrightarrow> fst (Get now k (Remove k c)) = None)
   \<and> fst (Get now k (Set t k [] no_options c)) = Some []
   \<and> fst (Get now k (Set t k [] no_options c)) \<noteq> None"
proof -
  have a: "FirstOrDefault (\<lambda>x. Id' x = k) c = None \<longrightarrow> Get now k c = (None, c)"
    by (simp add: Get_absent)
  have b: "(\<forall>x \<in> set ops. \<not> sets_key k (snd x)) \<longrightarrow> fst (Get now k (run ops [])) = None"
    using run_keeps_absent [of k "[]" ops] by (simp add: Get_absent)
  have c: "unique_ids c \<longrightarrow> fst (Get now k (Remove k c)) = None"
    by (simp add: Remove_def FirstOrDefault_DeleteOne_same Get_absent)
  have d: "fst (Get now k (Set t k [] no_options c)) = Some []"
    using Set_entry [of k t "[]" no_options c] by (simp add: Get_def Let_def new_entry_def)
  from a b c d show ?thesis by simp
qed

theorem get_missing_witness:
  "FirstOrDefault (\<lambda>x. Id' x = ''a'')
      [\<lparr>Id' = ''b'', Value = [1], AbsoluteExpiration = None,
        SlidingExpiration = None, LastAccessTime = 1\<rparr>] = None
   \<and> Get 5 ''a'' [\<lparr>Id' = ''b'', Value = [1], AbsoluteExpiration = None,
        SlidingExpiration = None, LastAccessTime = 1\<rparr>]
       = (None, [\<lparr>Id' = ''b'', Value = [1], AbsoluteExpiration = None,
        SlidingExpiration = None, LastAccessTime = 1\<rparr>])
   \<and> list_all (\<lambda>x. \<not> sets_key ''a'' (snd x))
        [(1::int, OpSet ''b'' [1] no_options), (2, OpGet ''a''), (3, OpRemove ''a'')]
   \<and> fst (Get 5 ''a''
        (run [(1, OpSet ''b'' [1] no_options), (2, OpGet ''a''), (3, OpRemove ''a'')] [])) = None
   \<and> unique_ids [\<lparr>Id' = ''a'', Value = [1], AbsoluteExpiration = None,
        SlidingExpiration = None, LastAccessTime = 1\<rparr>]
   \<and> fst (Get 5 ''a'' (Remove ''a'' [\<lparr>Id' = ''a'', Value = [1], AbsoluteExpiration = None,
        SlidingExpiration = None, LastAccessTime = 1\<rparr>])) = None"
  using get_missing [of "''a''"
      "[\<lparr>Id' = ''b'', Value = [1], AbsoluteExpiration = None,
         SlidingExpiration = None, LastAccessTime = 1\<rparr>]" 5
      "[(1, OpSet ''b'' [1] no_options), (2, OpGet ''a''), (3, OpRemove ''a'')]"]
    get_missing [of "''a''"
      "[\<lparr>Id' = ''a'', Value = [1], AbsoluteExpiration = None,
         SlidingExpiration = None, LastAccessTime = 1\<rparr>]" 5 "[]"]
  by (simp add: unique_ids_def)

section \<open>Refresh\<close>

text \<open>
  Claim C6. When a document with the key \<open>k\<close> exists and has a sliding expiration,
  \<^verbatim>\<open>Refresh(k)\<close> at the clock reading \<open>now\<close> stores that document with
  \<^verbatim>\<open>LastAccessTime\<close> equal to \<open>now\<close>. When no such document exists, or the document
  has no sliding expiration, \<^verbatim>\<open>Refresh(k)\<close> leaves the collection as it is.
  \<^verbatim>\<open>Refresh\<close> yields the collection only: it returns no value.
\<close>

theorem refresh_touch_or_noop:
  "(\<forall>e. FirstOrDefault (\<lambda>x. Id' x = k) c = Some e \<and> SlidingExpiration e \<noteq> None \<longrightarrow>
        FirstOrDefault (\<lambda>x. Id' x = k) (Refresh now k c) = Some (e\<lparr>LastAccessTime := now\<rparr>)
      \<and> Refresh now k c = ReplaceOne (\<lambda>x. Id' x = k) (e\<lparr>LastAccessTime := now\<rparr>) False c)
   \<and> (FirstOrDefault (\<lambda>x. Id' x = k) c = None \<longrightarrow> Refresh now k c = c)
   \<and> (\<forall>e. FirstOrDefault (\<lambda>x. Id' x = k) c = Some e \<and> SlidingExpiration e = None \<longrightarrow>
        Refresh now k c = c)"
  by (auto simp: Refresh_touched_entry) (auto simp: Refresh_def)

theorem refresh_touch_or_noop_witness:
  "FirstOrDefault (\<lambda>x. Id' x = ''a'')
      [\<lparr>Id' = ''a'', Value = [1], AbsoluteExpiration = None,
        SlidingExpiration = Some 20, LastAccessTime = 1\<rparr>]
     = Some \<lparr>Id' = ''a'', Value = [1], AbsoluteExpiration = None,
        SlidingExpiration = Some 20, LastAccessTime = 1\<rparr>
   \<and> Refresh 5 ''a'' [\<lparr>Id' = ''a'', Value = [1], AbsoluteExpiration = None,
        SlidingExpiration = Some 20, LastAccessTime = 1\<rparr>]
     = [\<lparr>Id' = ''a'', Value = [1], AbsoluteExpiration = None,
        SlidingExpiration = Some 20, LastAccessTime = 5\<rparr>]
   \<and> FirstOrDefault (\<lambda>x. Id' x = ''a'') [] = None
   \<and> Refresh 5 ''a'' [] = []
   \<and> FirstOrDefault (\<lambda>x. Id' x = ''a'')
      [\<lparr>Id' = ''a'', Value = [1], AbsoluteExpiration = Some 9,
        SlidingExpiration = None, LastAccessTime = 1\<rparr>]
     = Some \<lparr>Id' = ''a'', Value = [1], AbsoluteExpiration = Some 9,
        SlidingExpiration = None, LastAccessTime = 1\<rparr>
   \<and> Refresh 5 ''a'' [\<lparr>Id' = ''a'', Value = [1], AbsoluteExpiration = Some 9,
        SlidingExpiration = None, LastAccessTime = 1\<rparr>]
     = [\<lparr>Id' = ''a'', Value = [1], AbsoluteExpiration = Some 9,
        SlidingExpiration = None, LastAccessTime = 1\<rparr>]"
  using refresh_touch_or_noop [of "''a''"
      "[\<lparr>Id' = ''a'', Value = [1], AbsoluteExpiration = None,
         SlidingExpiration = Some 20, LastAccessTime = 1\<rparr>]" 5]
    refresh_touch_or_noop [of "''a''" "[]" 5]
    refresh_touch_or_noop [of "''a''"
      "[\<lparr>Id' = ''a'', Value = [1], AbsoluteExpiration = Some 9,
         SlidingExpiration = None, LastAccessTime = 1\<rparr>]" 5]
  by simp

section \<open>Entries with an absolute expiration only\<close>

text \<open>
  Claim C7. After \<^verbatim>\<open>Set(k, v, options)\<close> with an absolute expiration \<open>T\<close> and no
  sliding expiration, any number of calls of \<^verbatim>\<open>Get(k)\<close>, at any clock readings,
  leave the collection exactly as \<^verbatim>\<open>Set\<close> left it; the stored document of \<open>k\<close>
  still has the \<^verbatim>\<open>LastAccessTime\<close> that \<^verbatim>\<open>Set\<close> wrote.
\<close>

theorem absolute_only_no_touch:
  assumes "AbsoluteExpiration_opt options = Some T" and "SlidingExpiration_opt options = None"
  shows "snd (Gets ts k (Set t k v options c)) = Set t k v options c
       \<and> FirstOrDefault (\<lambda>x. Id' x = k) (snd (Gets ts k (Set t k v options c)))
           = Some \<lparr>Id' = k, Value = v, AbsoluteExpiration = Some (UtcDateTime T),
               SlidingExpiration = None, LastAccessTime = t\<rparr>"
proof -
  have f: "FirstOrDefault (\<lambda>x. Id' x = k) (Set t k v options c) = Some (new_entry t k v options)"
    by (rule Set_entry)
  have "SlidingExpiration (new_entry t k v options) = None"
    using assms by (simp add: new_entry_def)
  from Gets_untouched [OF f this, of ts]
  have "snd (Gets ts k (Set t k v options c)) = Set t k v options c"
    by simp
  with f assms show ?thesis
    by (simp add: new_entry_def)
qed

theorem absolute_only_no_touch_witness:
  "AbsoluteExpiration_opt
      \<lparr>AbsoluteExpiration_opt = Some \<lparr>ClockDateTime = 50, Offset = 8\<rparr>,
        AbsoluteExpirationRelativeToNow_opt = None, SlidingExpiration_opt = None\<rparr>
     = Some \<lparr>ClockDateTime = 50, Offset = 8\<rparr>
   \<and> SlidingExpiration_opt
      \<lparr>AbsoluteExpiration_opt = Some \<lparr>ClockDateTime = 50, Offset = 8\<rparr>,
        AbsoluteExpirationRelativeToNow_opt = None, SlidingExpiration_opt = None\<rparr> = None
   \<and> snd (Gets [3, 5, 100] ''a'' (Set 1 ''a'' [7]
        \<lparr>AbsoluteExpiration_opt = Some \<lparr>ClockDateTime = 50, Offset = 8\<rparr>,
          AbsoluteExpirationRelativeToNow_opt = None, SlidingExpiration_opt = None\<rparr> []))
     = [\<lparr>Id' = ''a'', Value = [7], AbsoluteExpiration = Some 42,
          SlidingExpiration = None, LastAccessTime = 1\<rparr>]"
  using absolute_only_no_touch [of
      "\<lparr>AbsoluteExpiration_opt = Some \<lparr>ClockDateTime = 50, Offset = 8\<rparr>,
         AbsoluteExpirationRelativeToNow_opt = None, SlidingExpiration_opt = None\<rparr>"
      "\<lparr>ClockDateTime = 50, Offset = 8\<rparr>" "[3, 5, 100]" "''a''" 1 "[7]" "[]"]
  by (simp add: Set_def new_entry_def UtcDateTime_def)

section \<open>Remove\<close>

lemma DeleteOne_twice:
  "unique_ids c \<Longrightarrow>
   DeleteOne (\<lambda>x. Id' x = key) (DeleteOne (\<lambda>x. Id' x = key) c) = DeleteOne (\<lambda>x. Id' x = key) c"
  by (rule DeleteOne_absent) (rule FirstOrDefault_DeleteOne_same)

text \<open>
  Claim C8. \<^verbatim>\<open>Remove(k)\<close> on a key with no document leaves the collection as it is
  (and raises nothing: \<^verbatim>\<open>Remove\<close> is total). In a collection with unique keys, after
  a first \<^verbatim>\<open>Remove(k)\<close> no document with the key \<open>k\<close> is left, and a second
  \<^verbatim>\<open>Remove(k)\<close> leaves the collection as the first one left it.
\<close>

theorem remove_idempotent:
  "(FirstOrDefault (\<lambda>x. Id' x = k) c = None \<longrightarrow> Remove k c = c)
   \<and> (unique_ids c \<longrightarrow>
        FirstOrDefault (\<lambda>x. Id' x = k) (Remove k c) = None
      \<and> Remove k (Remove k c) = Remove k c)"
  by (simp add: Remove_def DeleteOne_absent DeleteOne_twice FirstOrDefault_DeleteOne_same)

theorem remove_idempotent_witness:
  "FirstOrDefault (\<lambda>x. Id' x = ''a'')
      [\<lparr>Id' = ''b'', Value = [1], AbsoluteExpiration = None,
        SlidingExpiration = None, LastAccessTime = 1\<rparr>] = None
   \<and> Remove ''a'' [\<lparr>Id' = ''b'', Value = [1], AbsoluteExpiration = None,
        SlidingExpiration = None, LastAccessTime = 1\<rparr>]
     = [\<lparr>Id' = ''b'', Value = [1], AbsoluteExpiration = None,
        SlidingExpiration = None, LastAccessTime = 1\<rparr>]
   \<and> unique_ids
      [\<lparr>Id' = ''b'', Value = [1], AbsoluteExpiration = None,
        SlidingExpiration = None, LastAccessTime = 1\<rparr>,
       \<lparr>Id' = ''a'', Value = [2], AbsoluteExpiration = None,
        SlidingExpiration = Some 3, LastAccessTime = 2\<rparr>]
   \<and> Remove ''a'' (Remove ''a''
      [\<lparr>Id' = ''b'', Value = [1], AbsoluteExpiration = None,
        SlidingExpiration = None, LastAccessTime = 1\<rparr>,
       \<lparr>Id' = ''a'', Value = [2], AbsoluteExpiration = None,
        SlidingExpiration = Some 3, LastAccessTime = 2\<rparr>])
     = [\<lparr>Id' = ''b'', Value = [1], AbsoluteExpiration = None,
        SlidingExpiration = None, LastAccessTime = 1\<rparr>]"
  using remove_idempotent [of "''a''"
      "[\<lparr>Id' = ''b'', Value = [1], AbsoluteExpiration = None,
         SlidingExpiration = None, LastAccessTime = 1\<rparr>]"]
    remove_idempotent [of "''a''"
      "[\<lparr>Id' = ''b'', Value = [1], AbsoluteExpiration = None,
         SlidingExpiration = None, LastAccessTime = 1\<rparr>,
        \<lparr>Id' = ''a'', Value = [2], AbsoluteExpiration = None,
         SlidingExpiration = Some 3, LastAccessTime = 2\<rparr>]"]
  by (simp add: unique_ids_def Remove_def)

section \<open>The last-access marker along a history\<close>

lemma run_append: "run (xs @ ys) c = run ys (run xs c)"
  by (induction xs arbitrary: c) simp_all

lemma Get_LastAccessTime:
  assumes "FirstOrDefault (\<lambda>x. Id' x = k) (snd (Get now key c)) = Some e'"
  shows "(\<exists>e. FirstOrDefault (\<lambda>x. Id' x = k) c = Some e \<and> LastAccessTime e' = LastAccessTime e)
       \<or> LastAccessTime e' = now"
proof (cases "k = key")
  case False
  then show ?thesis using assms by (simp add: Get_other)
next
  case True
  show ?thesis
  proof (cases "FirstOrDefault (\<lambda>x. Id' x = key) c")
    case None
    then show ?thesis using assms True by (simp add: Get_absent)
  next
    case (Some e)
    show ?thesis
    proof (cases "SlidingExpiration e = None")
      case True
      then show ?thesis using assms Some \<open>k = key\<close> by (simp add: Get_untouched)
    next
      case False
      from Get_touched_entry [OF Some False, of now] assms \<open>k = key\<close>
      have "e' = e\<lparr>LastAccessTime := now\<rparr>" by simp
      then show ?thesis by simp
    qed
  qed
qed

lemma step_LastAccessTime:
  assumes "unique_ids c" and "FirstOrDefault (\<lambda>x. Id' x = k) (step now op c) = Some e'"
  shows "(\<exists>e. FirstOrDefault (\<lambda>x. Id' x = k) c = Some e \<and> LastAccessTime e' = LastAccessTime e)
       \<or> LastAccessTime e' = now"
proof (cases op)
  case (OpGet key)
  then show ?thesis using assms(2) Get_LastAccessTime [of k now key c e'] by simp
next
  case (OpRefresh key)
  then show ?thesis
    using assms(2) Get_LastAccessTime [of k now key c e'] by (simp add: Refresh_Get)
next
  case (OpRemove key)
  show ?thesis
  proof (cases "k = key")
    case True
    then show ?thesis
      using assms OpRemove by (simp add: Remove_def FirstOrDefault_DeleteOne_same)
  next
    case False
    then show ?thesis using assms(2) OpRemove by (simp add: Remove_other)
  qed
next
  case (OpSet key val options)
  show ?thesis
  proof (cases "k = key")
    case True
    then show ?thesis
      using assms(2) OpSet by (auto simp: Set_entry new_entry_def)
  next
    case False
    then show ?thesis using assms(2) OpSet by (simp add: Set_other)
  qed
qed

lemma run_LastAccessTime:
  "unique_ids c \<Longrightarrow> FirstOrDefault (\<lambda>x. Id' x = k) (run ops c) = Some e' \<Longrightarrow>
   (\<exists>e. FirstOrDefault (\<lambda>x. Id' x = k) c = Some e \<and> LastAccessTime e' = LastAccessTime e)
   \<or> LastAccessTime e' \<in> fst ` set ops"
proof (induction ops arbitrary: c)
  case Nil
  then show ?case by simp
next
  case (Cons x xs)
  let ?c1 = "step (fst x) (snd x) c"
  have u1: "unique_ids ?c1"
    using Cons.prems(1) by (rule unique_ids_step)
  have f: "FirstOrDefault (\<lambda>x. Id' x = k) (run xs ?c1) = Some e'"
    using Cons.prems(2) by simp
  from Cons.IH [OF u1 f] show ?case
  proof
    assume "\<exists>e. FirstOrDefault (\<lambda>x. Id' x = k) ?c1 = Some e
                 \<and> LastAccessTime e' = LastAccessTime e"
    then obtain e1 where e1: "FirstOrDefault (\<lambda>x. Id' x = k) ?c1 = Some e1"
      and eq: "LastAccessTime e' = LastAccessTime e1" by blast
    from step_LastAccessTime [OF Cons.prems(1) e1] eq show ?thesis by auto
  next
    assume "LastAccessTime e' \<in> fst ` set xs"
    then show ?thesis by simp
  qed
qed

text \<open>
  Claim C9. Take a collection with unique keys and a history of calls of \<^verbatim>\<open>Get\<close>,
  \<^verbatim>\<open>Refresh\<close>, \<^verbatim>\<open>Remove\<close> and \<^verbatim>\<open>Set\<close> whose clock readings never decrease and
  are not earlier than any \<^verbatim>\<open>LastAccessTime\<close> stored at the start. If the key \<open>k\<close>
  has a document at some point of the history and has one at a later point, the
  \<^verbatim>\<open>LastAccessTime\<close> of the later one is not earlier than that of the former: it is
  either the same, or the clock reading of one of the calls in between.
\<close>

theorem last_access_monotone:
  assumes "unique_ids c"
    and "sorted (map fst (ops1 @ ops2))"
    and "\<forall>d \<in> set c. \<forall>x \<in> set (ops1 @ ops2). LastAccessTime d \<le> fst x"
    and "FirstOrDefault (\<lambda>x. Id' x = k) (run ops1 c) = Some e"
    and "FirstOrDefault (\<lambda>x. Id' x = k) (run (ops1 @ ops2) c) = Some e'"
  shows "LastAccessTime e \<le> LastAccessTime e'
       \<and> (LastAccessTime e' = LastAccessTime e \<or> LastAccessTime e' \<in> fst ` set ops2)"
proof -
  let ?c1 = "run ops1 c"
  have u1: "unique_ids ?c1"
    using assms(1) by (rule unique_ids_run)
  have f2: "FirstOrDefault (\<lambda>x. Id' x = k) (run ops2 ?c1) = Some e'"
    using assms(5) by (simp add: run_append)
  have late: "LastAccessTime e' = LastAccessTime e \<or> LastAccessTime e' \<in> fst ` set ops2"
    using run_LastAccessTime [OF u1 f2] assms(4) by auto
  have early: "\<forall>x \<in> set ops2. LastAccessTime e \<le> fst x"
  proof
    fix x assume x: "x \<in> set ops2"
    from run_LastAccessTime [OF assms(1) assms(4)] show "LastAccessTime e \<le> fst x"
    proof
      assume "\<exists>e0. FirstOrDefault (\<lambda>x. Id' x = k) c = Some e0
                   \<and> LastAccessTime e = LastAccessTime e0"
      then obtain e0 where "FirstOrDefault (\<lambda>x. Id' x = k) c = Some e0"
        and eq: "LastAccessTime e = LastAccessTime e0" by blast
      then have "e0 \<in> set c" by (simp add: FirstOrDefault_mem)
      with assms(3) x eq show ?thesis by auto
    next
      assume "LastAccessTime e \<in> fst ` set ops1"
      with assms(2) x show ?thesis
        by (auto simp: sorted_append)
    qed
  qed
  from late early show ?thesis by auto
qed

theorem last_access_monotone_witness:
  "unique_ids [\<lparr>Id' = ''a'', Value = [1], AbsoluteExpiration = None,
        SlidingExpiration = Some 20, LastAccessTime = 1\<rparr>]
   \<and> sorted (map fst ([(2::int, OpGet ''a'')]
        @ [(3, OpRemove ''a''), (4, OpSet ''a'' [2] no_options), (6, OpRefresh ''a'')]))
   \<and> list_all (\<lambda>d. list_all (\<lambda>x. LastAccessTime d \<le> fst x)
        ([(2::int, OpGet ''a'')]
          @ [(3, OpRemove ''a''), (4, OpSet ''a'' [2] no_options), (6, OpRefresh ''a'')]))
      [\<lparr>Id' = ''a'', Value = [1], AbsoluteExpiration = None,
        SlidingExpiration = Some 20, LastAccessTime = 1\<rparr>]
   \<and> FirstOrDefault (\<lambda>x. Id' x = ''a'') (run [(2, OpGet ''a'')]
        [\<lparr>Id' = ''a'', Value = [1], AbsoluteExpiration = None,
          SlidingExpiration = Some 20, LastAccessTime = 1\<rparr>])
      = Some \<lparr>Id' = ''a'', Value = [1], AbsoluteExpiration = None,
          SlidingExpiration = Some 20, LastAccessTime = 2\<rparr>
   \<and> FirstOrDefault (\<lambda>x. Id' x = ''a'')
        (run ([(2, OpGet ''a'')] @ [(3, OpRemove ''a''), (4, OpSet ''a'' [2] no_options),
               (6, OpRefresh ''a'')])
        [\<lparr>Id' = ''a'', Value = [1], AbsoluteExpiration = None,
          SlidingExpiration = Some 20, LastAccessTime = 1\<rparr>])
      = Some \<lparr>Id' = ''a'', Value = [2], AbsoluteExpiration = None,
          SlidingExpiration = None, LastAccessTime = 4\<rparr>
   \<and> (2::int) \<le> 4"
  using last_access_monotone [of
      "[\<lparr>Id' = ''a'', Value = [1], AbsoluteExpiration = None,
         SlidingExpiration = Some 20, LastAccessTime = 1\<rparr>]"
      "[(2, OpGet ''a'')]"
      "[(3, OpRemove ''a''), (4, OpSet ''a'' [2] no_options), (6, OpRefresh ''a'')]"
      "''a''"
      "\<lparr>Id' = ''a'', Value = [1], AbsoluteExpiration = None,
         SlidingExpiration = Some 20, LastAccessTime = 2\<rparr>"
      "\<lparr>Id' = ''a'', Value = [2], AbsoluteExpiration = None,
         SlidingExpiration = None, LastAccessTime = 4\<rparr>"]
  by (simp add: unique_ids_def Get_def Refresh_def Remove_def Set_def new_entry_def
      no_options_def)

section \<open>What a touch leaves alone\<close>

lemma FirstOrDefault_filter_other:
  "k' \<noteq> key \<Longrightarrow>
   FirstOrDefault (\<lambda>x. Id' x = k') (filter (\<lambda>x. Id' x \<noteq> key) c)
     = FirstOrDefault (\<lambda>x. Id' x = k') c"
  by (induction c) auto

text \<open>
  Claim C10. When the document of \<open>k\<close> has a sliding expiration, the document that
  \<^verbatim>\<open>Get(k)\<close> and \<^verbatim>\<open>Refresh(k)\<close> store for \<open>k\<close> has the \<^verbatim>\<open>Id\<close>, \<^verbatim>\<open>Value\<close>,
  \<^verbatim>\<open>AbsoluteExpiration\<close> and \<^verbatim>\<open>SlidingExpiration\<close> that were read, and the clock
  reading as \<^verbatim>\<open>LastAccessTime\<close>. In every case \<^verbatim>\<open>Get(k)\<close>, \<^verbatim>\<open>Refresh(k)\<close> and
  \<^verbatim>\<open>Remove(k)\<close> leave the documents of all other keys as they are, in their order, so
  a lookup of another key finds the same document before and after.
\<close>

theorem touch_frame:
  "(\<forall>e. FirstOrDefault (\<lambda>x. Id' x = k) c = Some e \<and> SlidingExpiration e \<noteq> None \<longrightarrow>
       FirstOrDefault (\<lambda>x. Id' x = k) (snd (Get now k c))
         = Some \<lparr>Id' = Id' e, Value = Value e, AbsoluteExpiration = AbsoluteExpiration e,
             SlidingExpiration = SlidingExpiration e, LastAccessTime = now\<rparr>
     \<and> FirstOrDefault (\<lambda>x. Id' x = k) (Refresh now k c)
         = Some \<lparr>Id' = Id' e, Value = Value e, AbsoluteExpiration = AbsoluteExpiration e,
             SlidingExpiration = SlidingExpiration e, LastAccessTime = now\<rparr>)
   \<and> filter (\<lambda>x. Id' x \<noteq> k) (snd (Get now k c)) = filter (\<lambda>x. Id' x \<noteq> k) c
   \<and> filter (\<lambda>x. Id' x \<noteq> k) (Refresh now k c) = filter (\<lambda>x. Id' x \<noteq> k) c
   \<and> filter (\<lambda>x. Id' x \<noteq> k) (Remove k c) = filter (\<lambda>x. Id' x \<noteq> k) c
   \<and> (\<forall>k'. k' \<noteq> k \<longrightarrow>
       FirstOrDefault (\<lambda>x. Id' x = k') (snd (Get now k c)) = FirstOrDefault (\<lambda>x. Id' x = k') c
     \<and> FirstOrDefault (\<lambda>x. Id' x = k') (Refresh now k c) = FirstOrDefault (\<lambda>x. Id' x = k') c
     \<and> FirstOrDefault (\<lambda>x. Id' x = k') (Remove k c) = FirstOrDefault (\<lambda>x. Id' x = k') c)"
proof -
  have upd: "e\<lparr>LastAccessTime := now\<rparr>
      = \<lparr>Id' = Id' e, Value = Value e, AbsoluteExpiration = AbsoluteExpiration e,
          SlidingExpiration = SlidingExpiration e, LastAccessTime = now\<rparr>" for e :: CacheEntry
    by (cases e) simp
  have a: "\<forall>e. FirstOrDefault (\<lambda>x. Id' x = k) c = Some e \<and> SlidingExpiration e \<noteq> None \<longrightarrow>
       FirstOrDefault (\<lambda>x. Id' x = k) (snd (Get now k c))
         = Some \<lparr>Id' = Id' e, Value = Value e, AbsoluteExpiration = AbsoluteExpiration e,
             SlidingExpiration = SlidingExpiration e, LastAccessTime = now\<rparr>
     \<and> FirstOrDefault (\<lambda>x. Id' x = k) (Refresh now k c)
         = Some \<lparr>Id' = Id' e, Value = Value e, AbsoluteExpiration = AbsoluteExpiration e,
             SlidingExpiration = SlidingExpiration e, LastAccessTime = now\<rparr>"
    using Get_touched_entry [of k c _ now] upd by (auto simp: Refresh_Get)
  have b: "filter (\<lambda>x. Id' x \<noteq> k) (snd (Get now k c)) = filter (\<lambda>x. Id' x \<noteq> k) c"
    by (rule Get_filter)
  have c: "filter (\<lambda>x. Id' x \<noteq> k) (Remove k c) = filter (\<lambda>x. Id' x \<noteq> k) c"
    by (simp add: Remove_def filter_DeleteOne)
  have d: "\<forall>k'. k' \<noteq> k \<longrightarrow>
       FirstOrDefault (\<lambda>x. Id' x = k') (snd (Get now k c)) = FirstOrDefault (\<lambda>x. Id' x = k') c
     \<and> FirstOrDefault (\<lambda>x. Id' x = k') (Refresh now k c) = FirstOrDefault (\<lambda>x. Id' x = k') c
     \<and> FirstOrDefault (\<lambda>x. Id' x = k') (Remove k c) = FirstOrDefault (\<lambda>x. Id' x = k') c"
    by (simp add: Get_other Refresh_Get Remove_other)
  from a b c d show ?thesis
    by (simp add: Refresh_Get)
qed

theorem touch_frame_witness:
  "FirstOrDefault (\<lambda>x. Id' x = ''a'')
      [\<lparr>Id' = ''b'', Value = [1], AbsoluteExpiration = None,
        SlidingExpiration = Some 4, LastAccessTime = 1\<rparr>,
       \<lparr>Id' = ''a'', Value = [2], AbsoluteExpiration = Some 9,
        SlidingExpiration = Some 3, LastAccessTime = 2\<rparr>]
     = Some \<lparr>Id' = ''a'', Value = [2], AbsoluteExpiration = Some 9,
        SlidingExpiration = Some 3, LastAccessTime = 2\<rparr>
   \<and> snd (Get 5 ''a''
      [\<lparr>Id' = ''b'', Value = [1], AbsoluteExpiration = None,
        SlidingExpiration = Some 4, LastAccessTime = 1\<rparr>,
       \<lparr>Id' = ''a'', Value = [2], AbsoluteExpiration = Some 9,
        SlidingExpiration = Some 3, LastAccessTime = 2\<rparr>])
     = [\<lparr>Id' = ''b'', Value = [1], AbsoluteExpiration = None,
        SlidingExpiration = Some 4, LastAccessTime = 1\<rparr>,
       \<lparr>Id' = ''a'', Value = [2], AbsoluteExpiration = Some 9,
        SlidingExpiration = Some 3, LastAccessTime = 5\<rparr>]
   \<and> ''b'' \<noteq> ''a''
   \<and> FirstOrDefault (\<lambda>x. Id' x = ''b'') (Remove ''a''
      [\<lparr>Id' = ''b'', Value = [1], AbsoluteExpiration = None,
        SlidingExpiration = Some 4, LastAccessTime = 1\<rparr>,
       \<lparr>Id' = ''a'', Value = [2], AbsoluteExpiration = Some 9,
        SlidingExpiration = Some 3, LastAccessTime = 2\<rparr>])
     = Some \<lparr>Id' = ''b'', Value = [1], AbsoluteExpiration = None,
        SlidingExpiration = Some 4, LastAccessTime = 1\<rparr>"
  using touch_frame [of "''a''"
      "[\<lparr>Id' = ''b'', Value = [1], AbsoluteExpiration = None,
         SlidingExpiration = Some 4, LastAccessTime = 1\<rparr>,
        \<lparr>Id' = ''a'', Value = [2], AbsoluteExpiration = Some 9,
         SlidingExpiration = Some 3, LastAccessTime = 2\<rparr>]" 5]
  by (simp add: Get_def Remove_def)

end
